theory Spec2Isabelle
  imports Main
begin

section \<open>JWS envelope: splitting, parsing and verification\<close>

text \<open>
  A shallow embedding of the Go package \<open>jws\<close>: \<open>SplitCompact\<close>,
  \<open>SplitCompactReader\<close>, \<open>parse\<close>, \<open>parseCompact\<close>, \<open>getB64Value\<close>,
  \<open>verifyCompact\<close>, \<open>verifyJSON\<close>, \<open>Verify\<close>, \<open>VerifySet\<close>, \<open>init\<close>,
  \<open>addAlgorithmForKeyType\<close> and \<open>AlgorithmsForKey\<close>.

  A \<open>[]byte\<close> is a list of characters (a \<open>char\<close> is one byte). A Go function
  returning \<open>(value, error)\<close> returns a sum, \<open>Inl\<close> the error. Go's errors are
  messages; each \<open>errors.New\<close>/\<open>errors.Wrap\<close> site of the source is one
  constructor of \<open>error\<close>, named after the failure kinds of the specification.
\<close>

type_synonym bytes = string

datatype error =
    EmptyInput                \<comment> \<open>attempt to verify empty buffer\<close>
  | MalformedSegments         \<comment> \<open>invalid number of segments\<close>
  | ReadError                 \<comment> \<open>unexpected end of input (a failed read)\<close>
  | UnsupportedAlgorithm      \<comment> \<open>failed to create verifier\<close>
  | SignatureDecodeFailed     \<comment> \<open>failed to decode signature\<close>
  | HeaderDecodeFailed        \<comment> \<open>failed to decode (protected) headers\<close>
  | HeaderParseFailed         \<comment> \<open>failed to parse JOSE headers\<close>
  | KeyIDMismatch             \<comment> \<open>"kid" fields do not match\<close>
  | VerificationFailed        \<comment> \<open>failed to verify message\<close>
  | PayloadDecodeFailed       \<comment> \<open>message verified, failed to decode payload\<close>
  | ParsePayloadDecodeFailed  \<comment> \<open>failed to decode payload (in parse)\<close>
  | MessageUnmarshalFailed    \<comment> \<open>failed to unmarshal JSON message\<close>
  | AmbiguousPayload          \<comment> \<open>can't specify detached payload for JWS with payload\<close>
  | ProtectedMarshalFailed    \<comment> \<open>failed to marshal "protected" for signature #i\<close>
  | NoValidSignature          \<comment> \<open>could not verify with any of the signatures\<close>
  | NoKeyVerified             \<comment> \<open>failed to verify message with any of the keys in the jwk.Set object\<close>
  | InvalidKey                \<comment> \<open>invalid key %T\<close>
  | UnsupportedKeyType        \<comment> \<open>invalid key type %q\<close>

subsection \<open>The eager splitter\<close>

text \<open>\<open>bytes.IndexByte\<close>: the index of the first occurrence, \<open>None\<close> for Go's \<open>-1\<close>.\<close>

fun IndexByte :: "bytes \<Rightarrow> char \<Rightarrow> nat option" where
  "IndexByte [] c = None"
| "IndexByte (x # xs) c =
     (if x = c then Some 0 else map_option Suc (IndexByte xs c))"

text \<open>
  \<open>bytes.Split(src, sep)\<close> for a one-byte separator: the pieces between the
  separators, one more piece than there are separators (one empty piece for an
  empty input).
\<close>

fun Split :: "bytes \<Rightarrow> char \<Rightarrow> bytes list" where
  "Split [] c = [[]]"
| "Split (x # xs) c =
     (if x = c then [] # Split xs c
      else (case Split xs c of [] \<Rightarrow> [[x]] | p # ps \<Rightarrow> (x # p) # ps))"

definition SplitCompact :: "bytes \<Rightarrow> error + (bytes \<times> bytes \<times> bytes)" where
  "SplitCompact src =
     (let parts = Split src (CHR ''.'') in
      if length parts < 3 then Inl MalformedSegments
      else Inr (parts ! 0, parts ! 1, parts ! 2))"

subsection \<open>The streaming splitter\<close>

text \<open>
  One call of \<open>rdr.Read(buf)\<close> returns the bytes read and an error, which is
  \<open>nil\<close>, \<open>io.EOF\<close> or something else. A reader is the list of the results
  of its successive calls; a reader whose list is used up answers \<open>(0, io.EOF)\<close>.
  The readers that \<open>readAll\<close> recognises (\<open>*bytes.Reader\<close>, \<open>*bytes.Buffer\<close>,
  \<open>*strings.Reader\<close>) hold their whole content.
\<close>

datatype read_err = NoErr | EOF | Failed

type_synonym read_result = "bytes \<times> read_err"

datatype reader =
    BytesReader bytes
  | BytesBuffer bytes
  | StringsReader bytes
  | Stream "read_result list"

fun readAll :: "reader \<Rightarrow> bytes option" where
  "readAll (BytesReader d) = Some d"
| "readAll (BytesBuffer d) = Some d"
| "readAll (StringsReader d) = Some d"
| "readAll (Stream rs) = None"

text \<open>The local variables of \<open>SplitCompactReader\<close>; \<open>nil\<close> slices are empty lists.\<close>

record split_vars =
  v_protected :: bytes
  v_payload :: bytes
  v_signature :: bytes
  v_periods :: nat
  v_state :: nat
  v_sofar :: bytes

definition split_init :: split_vars where
  "split_init = \<lparr>v_protected = [], v_payload = [], v_signature = [],
                 v_periods = 0, v_state = 0, v_sofar = []\<rparr>"

text \<open>
  The \<open>switch state\<close> of the inner loop followed by the shortening of the
  buffer, for the index \<open>i\<close> of a period or, at the end of the input, the length
  of the buffer.
\<close>

definition capture :: "split_vars \<Rightarrow> nat \<Rightarrow> split_vars" where
  "capture st i =
     (let seg = take i (v_sofar st);
          st1 = (if v_state st = 0 then st\<lparr>v_protected := seg, v_state := 1\<rparr>
                 else if v_state st = 1 then st\<lparr>v_payload := seg, v_state := 2\<rparr>
                 else if v_state st = 2 then st\<lparr>v_signature := seg\<rparr>
                 else st)
      in if length (v_sofar st) > i
         then st1\<lparr>v_sofar := drop (i + 1) (v_sofar st)\<rparr>
         else st1)"

text \<open>
  The inner loop \<open>for loop := true; loop; { ... }\<close>, for the error \<open>err\<close> of the
  last read (\<open>eof\<close> says that it was \<open>io.EOF\<close>).
\<close>

function scan :: "bool \<Rightarrow> split_vars \<Rightarrow> split_vars" where
  "scan eof st =
     (case IndexByte (v_sofar st) (CHR ''.'') of
        None \<Rightarrow> (if eof then capture st (length (v_sofar st)) else st)
      | Some i \<Rightarrow> scan eof (capture (st\<lparr>v_periods := v_periods st + 1\<rparr>) i))"
  by pat_completeness auto
termination
proof -
  have less: "i < length s" if "IndexByte s c = Some i" for s c i
    using that by (induction s arbitrary: i) (auto split: if_splits)
  show ?thesis
    by (relation "measure (\<lambda>(eof, st). length (v_sofar st))")
       (auto simp: capture_def Let_def dest: less)
qed

text \<open>The outer loop \<open>for { n, err := rdr.Read(buf); ... }\<close>.\<close>

fun read_loop :: "read_result list \<Rightarrow> split_vars \<Rightarrow> error + split_vars" where
  "read_loop [] st = Inr (scan True st)"
| "read_loop ((chunk, err) # rs) st =
     (if err = Failed then Inl ReadError
      else let st1 = scan (err = EOF) (st\<lparr>v_sofar := v_sofar st @ chunk\<rparr>)
           in if err = EOF then Inr st1 else read_loop rs st1)"

definition SplitCompactReader :: "reader \<Rightarrow> error + (bytes \<times> bytes \<times> bytes)" where
  "SplitCompactReader rdr =
     (case readAll rdr of
        Some data \<Rightarrow> SplitCompact data
      | None \<Rightarrow>
          (case rdr of
             Stream rs \<Rightarrow>
               (case read_loop rs split_init of
                  Inl e \<Rightarrow> Inl e
                | Inr st \<Rightarrow>
                    if v_periods st \<noteq> 2 then Inl MalformedSegments
                    else Inr (v_protected st, v_payload st, v_signature st))
           | _ \<Rightarrow> Inl ReadError))" \<comment> \<open>not reached: \<open>readAll\<close> answers for the others\<close>

text \<open>
  A reader over a buffer that hands it out in chunks of \<open>c\<close> bytes (the last one
  may be shorter) and then reports the end of the input.
\<close>

function chunked :: "nat \<Rightarrow> bytes \<Rightarrow> read_result list" where
  "chunked c buf =
     (if c = 0 \<or> buf = [] then []
      else (take c buf, NoErr) # chunked c (drop c buf))"
  by pat_completeness auto
termination
  by (relation "measure (\<lambda>(c, buf). length buf)") auto

subsection \<open>Headers, keys and messages\<close>

text \<open>
  Modelled from the spec: the types \<open>Headers\<close>, \<open>Signature\<close> and \<open>Message\<close>
  and the packages \<open>jwk\<close> and \<open>jwa\<close> are declared outside the files at hand.
  Headers are a mapping from field names to dynamically typed values;
  \<open>hdr.Get(name)\<close> is the lookup and \<open>hdr.KeyID()\<close> is the string under
  \<open>kid\<close>, empty when there is none. A \<open>jwk.Key\<close> reports its key ID, algorithm
  and usage as strings (empty when absent) and its key type. The key types are
  the four that the source names, and any other name.
\<close>

datatype header_value =
    VString string
  | VBool bool
  | VNumber int
  | VArray "header_value list"

type_synonym Headers = "string \<rightharpoonup> header_value"

definition Get :: "Headers \<Rightarrow> string \<Rightarrow> header_value option" where
  "Get hdr name = hdr name"

definition KeyID :: "Headers \<Rightarrow> string" where
  "KeyID hdr = (case hdr ''kid'' of Some (VString s) \<Rightarrow> s | _ \<Rightarrow> [])"

datatype KeyType = OctetSeq | OKP | RSA | EC | OtherKeyType string

type_synonym SignatureAlgorithm = string

definition HS256 :: SignatureAlgorithm where "HS256 = ''HS256''"
definition HS384 :: SignatureAlgorithm where "HS384 = ''HS384''"
definition HS512 :: SignatureAlgorithm where "HS512 = ''HS512''"
definition RS256 :: SignatureAlgorithm where "RS256 = ''RS256''"
definition RS384 :: SignatureAlgorithm where "RS384 = ''RS384''"
definition RS512 :: SignatureAlgorithm where "RS512 = ''RS512''"
definition PS256 :: SignatureAlgorithm where "PS256 = ''PS256''"
definition PS384 :: SignatureAlgorithm where "PS384 = ''PS384''"
definition PS512 :: SignatureAlgorithm where "PS512 = ''PS512''"
definition ES256 :: SignatureAlgorithm where "ES256 = ''ES256''"
definition ES384 :: SignatureAlgorithm where "ES384 = ''ES384''"
definition ES512 :: SignatureAlgorithm where "ES512 = ''ES512''"
definition EdDSA :: SignatureAlgorithm where "EdDSA = ''EdDSA''"

record jwk_key =
  key_id :: string
  key_algorithm :: string
  key_usage :: string
  key_type :: KeyType
  key_material :: bytes

text \<open>
  The dynamic types that a \<open>key interface{}\<close> is tested for by the source. The
  content of a raw asymmetric key is never read by this package.
\<close>

datatype key =
    JWK jwk_key
  | RSAPublicKey | RSAPublicKeyPtr | RSAPrivateKey | RSAPrivateKeyPtr
  | ECDSAPublicKey | ECDSAPublicKeyPtr | ECDSAPrivateKey | ECDSAPrivateKeyPtr
  | Ed25519PublicKey | Ed25519PrivateKey | X25519PublicKey | X25519PrivateKey
  | ByteKey bytes
  | OtherKey

record Signature =
  sig_headers :: "Headers option"    \<comment> \<open>the public headers, \<open>None\<close> for \<open>nil\<close>\<close>
  sig_protected :: Headers
  sig_signature :: bytes

record Message =
  msg_payload :: bytes
  msg_signatures :: "Signature list"
  msg_b64 :: bool

subsection \<open>The collaborators\<close>

text \<open>
  The functions that the package calls and that are defined elsewhere are
  parameters: \<open>base64.Decode\<close>, \<open>base64.EncodeToString\<close>, \<open>json.Unmarshal\<close>
  into headers and into a message, \<open>json.Marshal\<close> of headers, \<open>NewVerifier\<close>
  (whose verifier answers whether \<open>Verify(message, signature, key)\<close> returned no
  error) and \<open>bytes.TrimSpace\<close>.
\<close>

type_synonym verifier = "bytes \<Rightarrow> bytes \<Rightarrow> key \<Rightarrow> bool"

record env =
  b64decode :: "bytes \<Rightarrow> bytes option"
  b64encode :: "bytes \<Rightarrow> bytes"
  unmarshal_headers :: "bytes \<Rightarrow> Headers option"
  unmarshal_message :: "bytes \<Rightarrow> Message option"
  marshal_headers :: "Headers \<Rightarrow> bytes option"
  NewVerifier :: "SignatureAlgorithm \<Rightarrow> verifier option"
  TrimSpace :: "bytes \<Rightarrow> bytes"

subsection \<open>Parsing the compact form\<close>

definition parse :: "env \<Rightarrow> bytes \<Rightarrow> bytes \<Rightarrow> bytes \<Rightarrow> error + Message" where
  "parse E protected payload signature =
     (case b64decode E protected of
        None \<Rightarrow> Inl HeaderDecodeFailed
      | Some decodedHeader \<Rightarrow>
     (case unmarshal_headers E decodedHeader of
        None \<Rightarrow> Inl HeaderParseFailed
      | Some hdr \<Rightarrow>
     (case b64decode E payload of
        None \<Rightarrow> Inl ParsePayloadDecodeFailed
      | Some decodedPayload \<Rightarrow>
     (case b64decode E signature of
        None \<Rightarrow> Inl SignatureDecodeFailed
      | Some decodedSignature \<Rightarrow>
          Inr \<lparr>msg_payload = decodedPayload,
               msg_signatures = [\<lparr>sig_headers = None, sig_protected = hdr,
                                  sig_signature = decodedSignature\<rparr>],
               msg_b64 = False\<rparr>))))"

definition parseCompact :: "env \<Rightarrow> bytes \<Rightarrow> error + Message" where
  "parseCompact E data =
     (case SplitCompact data of
        Inl e \<Rightarrow> Inl e
      | Inr (protected, payload, signature) \<Rightarrow> parse E protected payload signature)"

subsection \<open>Verification\<close>

definition getB64Value :: "Headers \<Rightarrow> bool" where
  "getB64Value hdr =
     (case Get hdr ''b64'' of
        None \<Rightarrow> True
      | Some b64raw \<Rightarrow> (case b64raw of VBool b64 \<Rightarrow> b64 | _ \<Rightarrow> False))"

text \<open>
  The test \<open>jwkKey, ok := key.(jwk.Key); ok && jwkKey.KeyID() != hdr.KeyID()\<close>
  under \<open>hdr.KeyID() != ""\<close>, which both verification paths make.
\<close>

definition kid_differs :: "Headers \<Rightarrow> key \<Rightarrow> bool" where
  "kid_differs hdr k =
     (if KeyID hdr \<noteq> []
      then (case k of JWK jwkKey \<Rightarrow> key_id jwkKey \<noteq> KeyID hdr | _ \<Rightarrow> False)
      else False)"

text \<open>
  \<open>verifyCompact\<close>. The detached payload is \<open>None\<close> for \<open>nil\<close>. The pieces
  that \<open>bytes.Split\<close> returns are never \<open>nil\<close>, so \<open>decodedPayload == nil\<close>
  holds exactly when the \<open>b64\<close> value is true. The message written to \<open>*dst\<close>
  on success is left out: it has no part in what is returned.
\<close>

definition verifyCompact ::
  "env \<Rightarrow> bytes \<Rightarrow> SignatureAlgorithm \<Rightarrow> key \<Rightarrow> bytes option \<Rightarrow> error + bytes" where
  "verifyCompact E signed alg k detachedPayload =
     (case SplitCompact signed of
        Inl e \<Rightarrow> Inl e
      | Inr (protected, payload0, signature) \<Rightarrow>
     (case NewVerifier E alg of
        None \<Rightarrow> Inl UnsupportedAlgorithm
      | Some verifier \<Rightarrow>
     (let payload = (case detachedPayload of
                       None \<Rightarrow> payload0
                     | Some d \<Rightarrow> if length payload0 = 0 then d else payload0);
          verifyBuf = protected @ ''.'' @ payload
      in
     (case b64decode E signature of
        None \<Rightarrow> Inl SignatureDecodeFailed
      | Some decodedSignature \<Rightarrow>
     (case b64decode E protected of
        None \<Rightarrow> Inl HeaderDecodeFailed
      | Some decodedProtected \<Rightarrow>
     (case unmarshal_headers E decodedProtected of
        None \<Rightarrow> Inl HeaderDecodeFailed
      | Some hdr \<Rightarrow>
          if kid_differs hdr k then Inl KeyIDMismatch
          else if \<not> verifier verifyBuf decodedSignature k then Inl VerificationFailed
          else if \<not> getB64Value hdr then Inr payload
          else (case b64decode E payload of
                  None \<Rightarrow> Inl PayloadDecodeFailed
                | Some v \<Rightarrow> Inr v)))))))"

text \<open>
  The loop of \<open>verifyJSON\<close> over the signatures of the message. As for the
  compact form, the message written to \<open>*dst\<close> on success is left out.
\<close>

fun verifyJSON_sigs ::
  "env \<Rightarrow> verifier \<Rightarrow> key \<Rightarrow> Message \<Rightarrow> bytes \<Rightarrow> Signature list \<Rightarrow> error + bytes" where
  "verifyJSON_sigs E verifier k m payload [] = Inl NoValidSignature"
| "verifyJSON_sigs E verifier k m payload (sig # sigs) =
     (if (case sig_headers sig of None \<Rightarrow> False | Some hdr \<Rightarrow> kid_differs hdr k)
      then verifyJSON_sigs E verifier k m payload sigs
      else (case marshal_headers E (sig_protected sig) of
              None \<Rightarrow> Inl ProtectedMarshalFailed
            | Some protected \<Rightarrow>
                if verifier (b64encode E protected @ ''.'' @ payload) (sig_signature sig) k
                then Inr (msg_payload m)
                else verifyJSON_sigs E verifier k m payload sigs))"

definition verifyJSON ::
  "env \<Rightarrow> bytes \<Rightarrow> SignatureAlgorithm \<Rightarrow> key \<Rightarrow> bytes option \<Rightarrow> error + bytes" where
  "verifyJSON E signed alg k detachedPayload =
     (case NewVerifier E alg of
        None \<Rightarrow> Inl UnsupportedAlgorithm
      | Some verifier \<Rightarrow>
     (case unmarshal_message E signed of
        None \<Rightarrow> Inl MessageUnmarshalFailed
      | Some m0 \<Rightarrow>
          if length (msg_payload m0) \<noteq> 0 \<and> detachedPayload \<noteq> None
          then Inl AmbiguousPayload
          else
            (let m = (case detachedPayload of
                        None \<Rightarrow> m0
                      | Some d \<Rightarrow> m0\<lparr>msg_payload := d\<rparr>);
                 payload = (if msg_b64 m then b64encode E (msg_payload m)
                            else msg_payload m)
             in verifyJSON_sigs E verifier k m payload (msg_signatures m))))"

definition Verify ::
  "env \<Rightarrow> bytes \<Rightarrow> SignatureAlgorithm \<Rightarrow> key \<Rightarrow> bytes option \<Rightarrow> error + bytes" where
  "Verify E buf0 alg k detachedPayload =
     (let buf = TrimSpace E buf0 in
      if length buf = 0 then Inl EmptyInput
      else if buf ! 0 = CHR ''{'' then verifyJSON E buf alg k detachedPayload
      else verifyCompact E buf alg k detachedPayload)"

text \<open>
  \<open>VerifySet\<close>: the set is the list of its keys, in the order of \<open>set.Get(i)\<close>
  for \<open>i\<close> from \<open>0\<close> to \<open>set.Len() - 1\<close>. \<open>Verify\<close> is called without
  options.
\<close>

fun VerifySet :: "env \<Rightarrow> bytes \<Rightarrow> jwk_key list \<Rightarrow> error + bytes" where
  "VerifySet E buf [] = Inl NoKeyVerified"
| "VerifySet E buf (k # ks) =
     (if key_algorithm k = [] then VerifySet E buf ks
      else if key_usage k \<noteq> [] \<and> key_usage k \<noteq> ''sig'' then VerifySet E buf ks
      else (case Verify E buf (key_algorithm k) (JWK k) None of
              Inl err \<Rightarrow> VerifySet E buf ks
            | Inr buf' \<Rightarrow> Inr buf'))"

subsection \<open>The registry of key types and algorithms\<close>

type_synonym registry = "KeyType \<rightharpoonup> SignatureAlgorithm list"

definition addAlgorithmForKeyType ::
  "registry \<Rightarrow> KeyType \<Rightarrow> SignatureAlgorithm \<Rightarrow> registry" where
  "addAlgorithmForKeyType m kty alg =
     m(kty \<mapsto> (case m kty of None \<Rightarrow> [] | Some algs \<Rightarrow> algs) @ [alg])"

text \<open>The map \<open>keyTypeToAlgorithms\<close> after \<open>init\<close> has run.\<close>

definition keyTypeToAlgorithms :: registry where
  "keyTypeToAlgorithms =
     (let m0 = Map.empty;
          m1 = addAlgorithmForKeyType m0 OKP EdDSA;
          m2 = foldl (\<lambda>m alg. addAlgorithmForKeyType m OctetSeq alg) m1
                 [HS256, HS384, HS512];
          m3 = foldl (\<lambda>m alg. addAlgorithmForKeyType m RSA alg) m2
                 [PS256, PS384, PS512, RS256, RS384, RS512];
          m4 = foldl (\<lambda>m alg. addAlgorithmForKeyType m EC alg) m3
                 [ES256, ES384, ES512]
      in m4)"

definition AlgorithmsForKey :: "key \<Rightarrow> error + SignatureAlgorithm list" where
  "AlgorithmsForKey k =
     (case (case k of
              JWK jk \<Rightarrow> Some (key_type jk)
            | RSAPublicKey \<Rightarrow> Some RSA | RSAPublicKeyPtr \<Rightarrow> Some RSA
            | RSAPrivateKey \<Rightarrow> Some RSA | RSAPrivateKeyPtr \<Rightarrow> Some RSA
            | ECDSAPublicKey \<Rightarrow> Some EC | ECDSAPublicKeyPtr \<Rightarrow> Some EC
            | ECDSAPrivateKey \<Rightarrow> Some EC | ECDSAPrivateKeyPtr \<Rightarrow> Some EC
            | Ed25519PublicKey \<Rightarrow> Some OKP | Ed25519PrivateKey \<Rightarrow> Some OKP
            | X25519PublicKey \<Rightarrow> Some OKP | X25519PrivateKey \<Rightarrow> Some OKP
            | ByteKey b \<Rightarrow> Some OctetSeq
            | OtherKey \<Rightarrow> None) of
        None \<Rightarrow> Inl InvalidKey
      | Some kty \<Rightarrow>
          (case keyTypeToAlgorithms kty of
             None \<Rightarrow> Inl UnsupportedKeyType
           | Some algs \<Rightarrow> Inr algs))"

subsection \<open>The splitter as the specification words it\<close>

text \<open>
  The specification of \<open>split_compact\<close>: split on the period; exactly three
  segments are required, anything else fails with \<open>MalformedSegments\<close>.
\<close>

definition split_compact_spec :: "bytes \<Rightarrow> error + (bytes \<times> bytes \<times> bytes)" where
  "split_compact_spec src =
     (let parts = Split src (CHR ''.'') in
      if length parts = 3 then Inr (parts ! 0, parts ! 1, parts ! 2)
      else Inl MalformedSegments)"

text \<open>
  The number of periods of a buffer. For a reader: the bytes that it hands out
  up to its first \<open>io.EOF\<close>, and whether a read fails before that.
\<close>

definition periods :: "bytes \<Rightarrow> nat" where
  "periods s = length (filter (\<lambda>c. c = CHR ''.'') s)"

fun content :: "read_result list \<Rightarrow> bytes" where
  "content [] = []"
| "content ((chunk, err) # rs) = (if err = EOF then chunk else chunk @ content rs)"

fun fails :: "read_result list \<Rightarrow> bool" where
  "fails [] = False"
| "fails ((chunk, err) # rs) =
     (if err = Failed then True else if err = EOF then False else fails rs)"

text \<open>
  The specification of \<open>verify_with_key_set\<close>: of the keys that declare an
  algorithm and whose usage is absent or signature use, in the order of the
  collection, the first one that verifies gives the payload; if there is none,
  the failure is \<open>NoKeyVerified\<close>.
\<close>

definition eligible :: "jwk_key \<Rightarrow> bool" where
  "eligible k =
     (key_algorithm k \<noteq> [] \<and> (key_usage k = [] \<or> key_usage k = ''sig''))"

fun first_success :: "('a \<Rightarrow> error + bytes) \<Rightarrow> 'a list \<Rightarrow> error + bytes" where
  "first_success f [] = Inl NoKeyVerified"
| "first_success f (k # ks) =
     (case f k of Inr p \<Rightarrow> Inr p | Inl e \<Rightarrow> first_success f ks)"

definition verify_with_key_set_spec ::
  "env \<Rightarrow> bytes \<Rightarrow> jwk_key list \<Rightarrow> error + bytes" where
  "verify_with_key_set_spec E buf ks =
     first_success (\<lambda>k. Verify E buf (key_algorithm k) (JWK k) None)
       (filter eligible ks)"

subsection \<open>An environment for the examples\<close>

text \<open>
  The examples run the functions above with the collaborators instantiated:
  unpadded base64url (RFC 4648, section 5), a parser that knows five header
  objects, and a toy verifier for \<open>HS256\<close> that accepts the signature made of
  the key bytes followed by the signing input. The examples are all in compact
  form; the environment knows no JSON message.
\<close>

definition base64url_alphabet :: string where
  "base64url_alphabet =
     ''ABCDEFGHIJKLMNOPQRSTUVWXYZabcdefghijklmnopqrstuvwxyz0123456789-_''"

definition sextet :: "char \<Rightarrow> bool list option" where
  "sextet c =
     map_option
       (\<lambda>i. [odd (i div 32), odd (i div 16), odd (i div 8),
             odd (i div 4), odd (i div 2), odd i])
       (IndexByte base64url_alphabet c)"

fun octets :: "bool list \<Rightarrow> bytes" where
  "octets (b7 # b6 # b5 # b4 # b3 # b2 # b1 # b0 # bs) =
     Char b0 b1 b2 b3 b4 b5 b6 b7 # octets bs"
| "octets bs = []"

definition base64url_decode :: "bytes \<Rightarrow> bytes option" where
  "base64url_decode s =
     (if length s mod 4 = 1 then None
      else map_option (\<lambda>bs. octets (concat bs)) (those (map sextet s)))"

fun bits_of :: "char \<Rightarrow> bool list" where
  "bits_of (Char b0 b1 b2 b3 b4 b5 b6 b7) = [b7, b6, b5, b4, b3, b2, b1, b0]"

fun sextet_chars :: "bool list \<Rightarrow> bytes" where
  "sextet_chars [] = []"
| "sextet_chars bs =
     (let g = take 6 (bs @ replicate 5 False);
          i = foldl (\<lambda>n b. 2 * n + (if b then 1 else 0)) (0::nat) g
      in (base64url_alphabet ! i) # sextet_chars (drop 6 bs))"

definition base64url_encode :: "bytes \<Rightarrow> bytes" where
  "base64url_encode s = sextet_chars (concat (map bits_of s))"

definition known_headers :: "bytes \<Rightarrow> Headers option" where
  \<open>known_headers =
     map_of
       [(''{}'', Map.empty),
        (''{"kid":"k1"}'', [''kid'' \<mapsto> VString ''k1'']),
        (''{"b64":false}'', [''b64'' \<mapsto> VBool False]),
        (''{"b64":true}'', [''b64'' \<mapsto> VBool True]),
        (''{"b64":"no"}'', [''b64'' \<mapsto> VString ''no''])]\<close>

fun key_bytes :: "key \<Rightarrow> bytes option" where
  "key_bytes (JWK jk) = Some (key_material jk)"
| "key_bytes (ByteKey b) = Some b"
| "key_bytes k = None"

definition toy_verifier :: verifier where
  "toy_verifier message signature k =
     (case key_bytes k of None \<Rightarrow> False | Some b \<Rightarrow> signature = b @ message)"

definition ascii_space :: "char \<Rightarrow> bool" where
  "ascii_space c = (c \<in> set [CHR 0x09, CHR 0x0A, CHR 0x0B, CHR 0x0C, CHR 0x0D, CHR '' ''])"

definition ascii_TrimSpace :: "bytes \<Rightarrow> bytes" where
  "ascii_TrimSpace s = rev (dropWhile ascii_space (rev (dropWhile ascii_space s)))"

definition E0 :: env where
  "E0 = \<lparr>b64decode = base64url_decode,
         b64encode = base64url_encode,
         unmarshal_headers = known_headers,
         unmarshal_message = (\<lambda>s. None),
         marshal_headers = (\<lambda>h. None),
         NewVerifier = (\<lambda>alg. if alg = HS256 then Some toy_verifier else None),
         TrimSpace = ascii_TrimSpace\<rparr>"

text \<open>Structured keys with the key bytes \<open>k\<close>, for a key ID and a usage.\<close>

definition jwk_of :: "string \<Rightarrow> string \<Rightarrow> jwk_key" where
  "jwk_of kid usage =
     \<lparr>key_id = kid, key_algorithm = HS256, key_usage = usage,
      key_type = OctetSeq, key_material = ''k''\<rparr>"

section \<open>Properties\<close>

subsection \<open>Shared facts\<close>

declare scan.simps [simp del]
declare chunked.simps [simp del]

lemma kid_differs_JWK:
  "kid_differs hdr (JWK jk) = (KeyID hdr \<noteq> [] \<and> key_id jk \<noteq> KeyID hdr)"
  by (simp add: kid_differs_def)

lemma SplitCompact_Inl: "SplitCompact s = Inl e \<Longrightarrow> e = MalformedSegments"
  by (auto simp: SplitCompact_def Let_def split: if_splits)

text \<open>
  The example message with the protected header \<open>{"kid":"k1"}\<close> and the
  payload segment \<open>UA\<close>, signed with the key bytes \<open>k\<close>.
\<close>

lemma ex_kid_split:
  "SplitCompact ''eyJraWQiOiJrMSJ9.UA.a2V5SnJhV1FpT2lKck1TSjkuVUE'' =
     Inr (''eyJraWQiOiJrMSJ9'', ''UA'', ''a2V5SnJhV1FpT2lKck1TSjkuVUE'')"
  by code_simp

lemma ex_kid_signature:
  "b64decode E0 ''a2V5SnJhV1FpT2lKck1TSjkuVUE'' = Some ''keyJraWQiOiJrMSJ9.UA''"
  by code_simp

lemma ex_kid_protected:
  \<open>b64decode E0 ''eyJraWQiOiJrMSJ9'' = Some ''{"kid":"k1"}''\<close>
  by code_simp

lemma ex_kid_headers:
  \<open>unmarshal_headers E0 ''{"kid":"k1"}'' = Some [''kid'' \<mapsto> VString ''k1'']\<close>
  by (simp add: E0_def known_headers_def)

lemma ex_kid_KeyID: "KeyID [''kid'' \<mapsto> VString ''k1''] = ''k1''"
  by (simp add: KeyID_def)

lemma ex_verifier: "NewVerifier E0 HS256 = Some toy_verifier"
  by (simp add: E0_def)

subsection \<open>Key IDs in compact verification\<close>

text \<open>
  C1: in compact-form verification, when the protected header carries a
  \<open>kid\<close>, the key exposes a key ID and the two differ, the result is
  \<open>KeyIDMismatch\<close>, whatever the verifier would answer about the signature:
  the verifier is arbitrary here, and the key IDs are compared before it is
  asked. (The message is one that reaches the comparison: it has its three
  segments, the algorithm has a verifier, and the signature and the protected
  header decode.)
\<close>

theorem verifyCompact_kid_mismatch_fatal:
  assumes "SplitCompact signed = Inr (protected, payload, signature)"
    and "NewVerifier E alg = Some verifier"
    and "b64decode E signature = Some decodedSignature"
    and "b64decode E protected = Some decodedProtected"
    and "unmarshal_headers E decodedProtected = Some hdr"
    and "KeyID hdr \<noteq> []"
    and "key_id jwkKey \<noteq> []"
    and "key_id jwkKey \<noteq> KeyID hdr"
  shows "verifyCompact E signed alg (JWK jwkKey) detachedPayload = Inl KeyIDMismatch"
  using assms by (simp add: verifyCompact_def Let_def kid_differs_JWK)

text \<open>
  The example message against a key with the ID \<open>k2\<close>: the toy verifier
  accepts the signature for this key, and the verification fails on the key ID.
\<close>

theorem verifyCompact_kid_mismatch_fatal_witness:
  "verifyCompact E0 ''eyJraWQiOiJrMSJ9.UA.a2V5SnJhV1FpT2lKck1TSjkuVUE'' HS256
     (JWK (jwk_of ''k2'' ''sig'')) None = Inl KeyIDMismatch
   \<and> toy_verifier ''eyJraWQiOiJrMSJ9.UA'' ''keyJraWQiOiJrMSJ9.UA''
       (JWK (jwk_of ''k2'' ''sig''))"
proof -
  have "key_id (jwk_of ''k2'' ''sig'') \<noteq> []"
    and "key_id (jwk_of ''k2'' ''sig'') \<noteq> KeyID [''kid'' \<mapsto> VString ''k1'']"
    and "KeyID [''kid'' \<mapsto> VString ''k1''] \<noteq> []"
    by (simp_all add: jwk_of_def ex_kid_KeyID)
  then have "verifyCompact E0 ''eyJraWQiOiJrMSJ9.UA.a2V5SnJhV1FpT2lKck1TSjkuVUE'' HS256
     (JWK (jwk_of ''k2'' ''sig'')) None = Inl KeyIDMismatch"
    by (intro verifyCompact_kid_mismatch_fatal [OF ex_kid_split ex_verifier
          ex_kid_signature ex_kid_protected ex_kid_headers])
  moreover have "toy_verifier ''eyJraWQiOiJrMSJ9.UA'' ''keyJraWQiOiJrMSJ9.UA''
      (JWK (jwk_of ''k2'' ''sig''))"
    by (simp add: toy_verifier_def jwk_of_def)
  ultimately show ?thesis by simp
qed

text \<open>
  C10: in compact-form verification, when the protected header carries a
  non-empty \<open>kid\<close> and the key is a structured key, the verification fails
  with \<open>KeyIDMismatch\<close> exactly when the key's ID is not the header's
  \<open>kid\<close>; a structured key with an empty (absent) key ID fails so too.
\<close>

theorem verifyCompact_kid_must_equal:
  assumes "SplitCompact signed = Inr (protected, payload, signature)"
    and "NewVerifier E alg = Some verifier"
    and "b64decode E signature = Some decodedSignature"
    and "b64decode E protected = Some decodedProtected"
    and "unmarshal_headers E decodedProtected = Some hdr"
    and "KeyID hdr \<noteq> []"
  shows "(key_id jwkKey = [] \<longrightarrow>
            verifyCompact E signed alg (JWK jwkKey) detachedPayload = Inl KeyIDMismatch)
       \<and> ((verifyCompact E signed alg (JWK jwkKey) detachedPayload = Inl KeyIDMismatch)
            = (key_id jwkKey \<noteq> KeyID hdr))"
  using assms
  by (auto simp: verifyCompact_def Let_def kid_differs_JWK split: option.splits)

text \<open>
  The example message against a key without an ID, and against the key with
  the ID \<open>k1\<close>.
\<close>

theorem verifyCompact_kid_must_equal_witness:
  "verifyCompact E0 ''eyJraWQiOiJrMSJ9.UA.a2V5SnJhV1FpT2lKck1TSjkuVUE'' HS256
     (JWK (jwk_of [] ''sig'')) None = Inl KeyIDMismatch
   \<and> verifyCompact E0 ''eyJraWQiOiJrMSJ9.UA.a2V5SnJhV1FpT2lKck1TSjkuVUE'' HS256
     (JWK (jwk_of ''k1'' ''sig'')) None \<noteq> Inl KeyIDMismatch"
proof -
  have kid: "KeyID [''kid'' \<mapsto> VString ''k1''] \<noteq> []"
    by (simp add: ex_kid_KeyID)
  note t = verifyCompact_kid_must_equal [OF ex_kid_split ex_verifier ex_kid_signature
          ex_kid_protected ex_kid_headers kid, of _ None]
  have "key_id (jwk_of [] ''sig'') = []"
    by (simp add: jwk_of_def)
  with t [of "jwk_of [] ''sig''"]
  have 1: "verifyCompact E0 ''eyJraWQiOiJrMSJ9.UA.a2V5SnJhV1FpT2lKck1TSjkuVUE'' HS256
     (JWK (jwk_of [] ''sig'')) None = Inl KeyIDMismatch"
    by blast
  have "key_id (jwk_of ''k1'' ''sig'') = KeyID [''kid'' \<mapsto> VString ''k1'']"
    by (simp add: jwk_of_def ex_kid_KeyID)
  with t [of "jwk_of ''k1'' ''sig''"]
  have 2: "verifyCompact E0 ''eyJraWQiOiJrMSJ9.UA.a2V5SnJhV1FpT2lKck1TSjkuVUE'' HS256
     (JWK (jwk_of ''k1'' ''sig'')) None \<noteq> Inl KeyIDMismatch"
    by blast
  from 1 2 show ?thesis by simp
qed

subsection \<open>The payload returned by compact verification\<close>

text \<open>
  The example message with the protected header \<open>{"b64":false}\<close> and the
  payload segment \<open>UA\<close>, signed with the key bytes \<open>k\<close>.
\<close>

lemma ex_raw_split:
  "SplitCompact ''eyJiNjQiOmZhbHNlfQ.UA.a2V5SmlOalFpT21aaGJITmxmUS5VQQ'' =
     Inr (''eyJiNjQiOmZhbHNlfQ'', ''UA'', ''a2V5SmlOalFpT21aaGJITmxmUS5VQQ'')"
  by code_simp

lemma ex_raw_signature:
  "b64decode E0 ''a2V5SmlOalFpT21aaGJITmxmUS5VQQ'' = Some ''keyJiNjQiOmZhbHNlfQ.UA''"
  by code_simp

lemma ex_raw_protected:
  \<open>b64decode E0 ''eyJiNjQiOmZhbHNlfQ'' = Some ''{"b64":false}''\<close>
  by code_simp

lemma ex_raw_headers:
  \<open>unmarshal_headers E0 ''{"b64":false}'' = Some [''b64'' \<mapsto> VBool False]\<close>
  by (simp add: E0_def known_headers_def)

text \<open>
  C4, as the code has it: in compact-form verification, after a successful
  signature check, the payload (the payload segment, or the detached payload
  when the segment is empty) is base64url-decoded when the protected header has
  no \<open>b64\<close> field or has the boolean \<open>true\<close> there, and a decoding failure
  is \<open>PayloadDecodeFailed\<close>; in every other case, which is the boolean
  \<open>false\<close> and also any value that is not a boolean, the raw bytes are
  returned.
\<close>

theorem verifyCompact_payload_decoding:
  assumes "SplitCompact signed = Inr (protected, payload, signature)"
    and "NewVerifier E alg = Some verifier"
    and "b64decode E signature = Some decodedSignature"
    and "b64decode E protected = Some decodedProtected"
    and "unmarshal_headers E decodedProtected = Some hdr"
    and "\<not> kid_differs hdr k"
    and "pl = (case detachedPayload of None \<Rightarrow> payload
               | Some d \<Rightarrow> if payload = [] then d else payload)"
    and "verifier (protected @ ''.'' @ pl) decodedSignature k"
  shows "verifyCompact E signed alg k detachedPayload =
     (if Get hdr ''b64'' = None \<or> Get hdr ''b64'' = Some (VBool True)
      then (case b64decode E pl of None \<Rightarrow> Inl PayloadDecodeFailed | Some v \<Rightarrow> Inr v)
      else Inr pl)"
  using assms
  by (auto simp: verifyCompact_def Let_def getB64Value_def
           split: option.splits header_value.splits)

text \<open>The example message: its payload segment comes back as it is.\<close>

theorem verifyCompact_payload_decoding_witness:
  "verifyCompact E0 ''eyJiNjQiOmZhbHNlfQ.UA.a2V5SmlOalFpT21aaGJITmxmUS5VQQ'' HS256
     (ByteKey ''k'') None = Inr ''UA''"
proof -
  have kid: "\<not> kid_differs [''b64'' \<mapsto> VBool False] (ByteKey ''k'')"
    by (simp add: kid_differs_def)
  have pl: "''UA'' = (case None :: bytes option of None \<Rightarrow> ''UA''
                      | Some d \<Rightarrow> if ''UA'' = [] then d else ''UA'')"
    by simp
  have ok: "toy_verifier (''eyJiNjQiOmZhbHNlfQ'' @ ''.'' @ ''UA'') ''keyJiNjQiOmZhbHNlfQ.UA''
      (ByteKey ''k'')"
    by (simp add: toy_verifier_def)
  show ?thesis
    using verifyCompact_payload_decoding [OF ex_raw_split ex_verifier ex_raw_signature
        ex_raw_protected ex_raw_headers kid pl ok]
    by (simp add: Get_def)
qed

text \<open>
  Against C4 as it is stated: the protected header \<open>{"b64":"no"}\<close> has a
  \<open>b64\<close> field that is not the boolean \<open>false\<close>, and the verification
  returns the raw payload segment \<open>UA\<close>, not its decoding \<open>P\<close>.
\<close>

theorem verifyCompact_raw_without_false_counterexample:
  \<open>b64decode E0 ''eyJiNjQiOiJubyJ9'' = Some ''{"b64":"no"}''
   \<and> Get (the (unmarshal_headers E0 ''{"b64":"no"}'')) ''b64'' = Some (VString ''no'')
   \<and> verifyCompact E0 ''eyJiNjQiOiJubyJ9.UA.a2V5SmlOalFpT2lKdWJ5SjkuVUE'' HS256
       (ByteKey ''k'') None = Inr ''UA''
   \<and> b64decode E0 ''UA'' = Some ''P''\<close>
  by code_simp

subsection \<open>Detached payloads\<close>

text \<open>
  With an empty payload segment and a detached payload \<open>P\<close>, a verification
  that succeeds has asked the verifier about the protected segment, a period
  and \<open>P\<close>; what it returns is \<open>P\<close> when the \<open>b64\<close> value is false and
  the decoding of \<open>P\<close> otherwise.
\<close>

lemma verifyCompact_detached_signing_input:
  assumes "SplitCompact signed = Inr (protected, [], signature)"
    and "verifyCompact E signed alg k (Some P) = Inr r"
  shows "\<exists>verifier decodedSignature.
           NewVerifier E alg = Some verifier
           \<and> b64decode E signature = Some decodedSignature
           \<and> verifier (protected @ ''.'' @ P) decodedSignature k"
  using assms
  by (auto simp: verifyCompact_def Let_def split: option.splits if_splits)

lemma verifyCompact_detached_result:
  assumes "SplitCompact signed = Inr (protected, [], signature)"
    and "verifyCompact E signed alg k (Some P) = Inr r"
  shows "\<exists>decodedProtected hdr.
           b64decode E protected = Some decodedProtected
           \<and> unmarshal_headers E decodedProtected = Some hdr
           \<and> (if getB64Value hdr then b64decode E P = Some r else r = P)"
  using assms
  by (auto simp: verifyCompact_def Let_def split: option.splits if_splits)

text \<open>
  C2: the claim is that compact verification with an empty payload segment and
  a detached payload \<open>P\<close> returns \<open>P\<close>. The code, for the protected header
  \<open>{}\<close>: with the detached payload \<open>UA\<close> the signature over \<open>e30.UA\<close> is
  accepted and \<open>P\<close>, the decoding of \<open>UA\<close>, is returned; with the detached
  payload \<open>P!\<close> the signature over \<open>e30.P!\<close> is accepted and the result is
  \<open>PayloadDecodeFailed\<close>.
\<close>

theorem verifyCompact_detached_payload_is_decoded:
  "verifyCompact E0 ''e30..a2UzMC5VQQ'' HS256 (ByteKey ''k'') (Some ''UA'') = Inr ''P''
   \<and> verifyCompact E0 ''e30..a2UzMC5QIQ'' HS256 (ByteKey ''k'') (Some ''P!'')
       = Inl PayloadDecodeFailed"
  by code_simp

text \<open>
  The JSON path refuses a detached payload next to a payload of the message;
  the compact path never gives that error.
\<close>

lemma verifyJSON_ambiguous:
  assumes "NewVerifier E alg = Some verifier"
    and "unmarshal_message E signed = Some m"
    and "msg_payload m \<noteq> []"
  shows "verifyJSON E signed alg k (Some d) = Inl AmbiguousPayload"
  using assms by (simp add: verifyJSON_def)

lemma verifyCompact_never_ambiguous:
  "verifyCompact E signed alg k detachedPayload \<noteq> Inl AmbiguousPayload"
  by (auto simp: verifyCompact_def Let_def split: option.splits sum.splits if_splits
           dest: SplitCompact_Inl)

text \<open>
  C3: the claim is that \<open>Verify\<close> fails with \<open>AmbiguousPayload\<close> whenever a
  message with a non-empty payload comes with a detached payload, in every
  serialization. The code, for the compact message with the payload segment
  \<open>UA\<close> and the detached payload \<open>UQ\<close>: the detached payload is ignored and
  the decoded payload segment is returned.
\<close>

theorem Verify_compact_ignores_detached_payload:
  "Verify E0 ''e30.UA.a2UzMC5VQQ'' HS256 (ByteKey ''k'') (Some ''UQ'') = Inr ''P''"
  by code_simp

subsection \<open>Parsing the compact form\<close>

lemma ex_parse_split:
  "SplitCompact ''eyJiNjQiOmZhbHNlfQ.P!.c2ln'' =
     Inr (''eyJiNjQiOmZhbHNlfQ'', ''P!'', ''c2ln'')"
  by code_simp

lemma ex_parse_payload: "b64decode E0 ''P!'' = None"
  by code_simp

lemma ex_parse_ok:
  "parseCompact E0 ''eyJiNjQiOmZhbHNlfQ.UA.c2ln'' =
     Inr \<lparr>msg_payload = ''P'',
          msg_signatures =
            [\<lparr>sig_headers = None, sig_protected = [''b64'' \<mapsto> VBool False],
              sig_signature = ''sig''\<rparr>],
          msg_b64 = False\<rparr>"
  by (simp add: parseCompact_def parse_def SplitCompact_def E0_def known_headers_def
      base64url_decode_def sextet_def base64url_alphabet_def)

text \<open>
  C9: parsing a compact-form input decodes all three segments as base64url.
  When it returns a message, the protected, payload and signature segments have
  each been decoded, and the payload of the message is the decoded payload
  segment. When the protected header decodes and parses and the payload
  segment is not base64url, parsing fails, whatever the header says: the
  \<open>b64\<close> field is not looked at.
\<close>

theorem parseCompact_decodes_every_segment:
  "(parseCompact E data = Inr m \<longrightarrow>
      (\<exists>protected payload signature decodedHeader hdr decodedSignature.
         SplitCompact data = Inr (protected, payload, signature)
         \<and> b64decode E protected = Some decodedHeader
         \<and> unmarshal_headers E decodedHeader = Some hdr
         \<and> b64decode E payload = Some (msg_payload m)
         \<and> b64decode E signature = Some decodedSignature))
   \<and> (SplitCompact data = Inr (p, pl, s) \<and> b64decode E p = Some dh
        \<and> unmarshal_headers E dh = Some h \<and> b64decode E pl = None \<longrightarrow>
        parseCompact E data = Inl ParsePayloadDecodeFailed)"
  by (auto simp: parseCompact_def parse_def split: sum.splits option.splits)

text \<open>
  A message whose header sets \<open>b64\<close> to false and whose payload segment
  \<open>P!\<close> is not base64url fails to parse; with the payload segment \<open>UA\<close> it
  parses, and that segment decodes to the payload \<open>P\<close>.
\<close>

theorem parseCompact_decodes_every_segment_witness:
  "parseCompact E0 ''eyJiNjQiOmZhbHNlfQ.P!.c2ln'' = Inl ParsePayloadDecodeFailed
   \<and> getB64Value [''b64'' \<mapsto> VBool False] = False
   \<and> SplitCompact ''eyJiNjQiOmZhbHNlfQ.UA.c2ln'' =
        Inr (''eyJiNjQiOmZhbHNlfQ'', ''UA'', ''c2ln'')
   \<and> b64decode E0 ''UA'' = Some ''P''"
proof -
  have 1: "parseCompact E0 ''eyJiNjQiOmZhbHNlfQ.P!.c2ln'' = Inl ParsePayloadDecodeFailed"
    using parseCompact_decodes_every_segment [THEN conjunct2, rule_format,
        OF conjI [OF ex_parse_split
             conjI [OF ex_raw_protected conjI [OF ex_raw_headers ex_parse_payload]]]]
    .
  have 2: "getB64Value [''b64'' \<mapsto> VBool False] = False"
    by (simp add: getB64Value_def Get_def)
  have 3: "SplitCompact ''eyJiNjQiOmZhbHNlfQ.UA.c2ln'' =
        Inr (''eyJiNjQiOmZhbHNlfQ'', ''UA'', ''c2ln'')"
    by code_simp
  have 4: "b64decode E0 ''UA'' = Some ''P''"
    using parseCompact_decodes_every_segment [THEN conjunct1, rule_format, OF ex_parse_ok]
    by (auto simp: 3)
  from 1 2 3 4 show ?thesis by blast
qed

subsection \<open>Verification with a key set\<close>

text \<open>
  C8: \<open>VerifySet\<close> goes through the keys in order, skips every key without an
  algorithm and every key whose usage is present and is not signature use,
  calls \<open>Verify\<close> with the algorithm and the key of each remaining one,
  returns the payload of the first that verifies, and fails with
  \<open>NoKeyVerified\<close> when there is none.
\<close>

theorem VerifySet_first_eligible_success:
  "VerifySet E buf ks = verify_with_key_set_spec E buf ks"
  by (induction ks)
     (auto simp: verify_with_key_set_spec_def eligible_def split: sum.splits)

lemma VerifySet_error: "VerifySet E buf ks = Inl e \<Longrightarrow> e = NoKeyVerified"
  by (induction ks) (auto split: if_splits sum.splits)

text \<open>
  The example message with the \<open>kid\<close> \<open>k1\<close>: a key for encryption is
  skipped though it would verify, a key with another ID fails, the third key
  verifies.
\<close>

lemma VerifySet_example:
  "VerifySet E0 ''eyJraWQiOiJrMSJ9.UA.a2V5SnJhV1FpT2lKck1TSjkuVUE''
     [jwk_of ''k1'' ''enc'', jwk_of ''k2'' ''sig'', jwk_of ''k1'' ''sig''] = Inr ''P''
   \<and> filter eligible [jwk_of ''k1'' ''enc'', jwk_of ''k2'' ''sig'', jwk_of ''k1'' ''sig'']
       = [jwk_of ''k2'' ''sig'', jwk_of ''k1'' ''sig'']
   \<and> VerifySet E0 ''eyJraWQiOiJrMSJ9.UA.a2V5SnJhV1FpT2lKck1TSjkuVUE''
     [jwk_of ''k1'' ''enc'', jwk_of ''k2'' ''sig''] = Inl NoKeyVerified"
  by code_simp

subsection \<open>The algorithms of a key\<close>

text \<open>
  C7, as the code has it: for every key of a recognised shape,
  \<open>AlgorithmsForKey\<close> returns the algorithms of its key type in the order in
  which \<open>init\<close> registered them: \<open>HS256, HS384, HS512\<close> for an octet
  sequence, \<open>PS256, PS384, PS512, RS256, RS384, RS512\<close> for RSA,
  \<open>ES256, ES384, ES512\<close> for EC and \<open>EdDSA\<close> for OKP.
\<close>

theorem AlgorithmsForKey_table:
  "AlgorithmsForKey (ByteKey b) = Inr [HS256, HS384, HS512]
   \<and> AlgorithmsForKey RSAPublicKey = Inr [PS256, PS384, PS512, RS256, RS384, RS512]
   \<and> AlgorithmsForKey RSAPublicKeyPtr = Inr [PS256, PS384, PS512, RS256, RS384, RS512]
   \<and> AlgorithmsForKey RSAPrivateKey = Inr [PS256, PS384, PS512, RS256, RS384, RS512]
   \<and> AlgorithmsForKey RSAPrivateKeyPtr = Inr [PS256, PS384, PS512, RS256, RS384, RS512]
   \<and> AlgorithmsForKey ECDSAPublicKey = Inr [ES256, ES384, ES512]
   \<and> AlgorithmsForKey ECDSAPublicKeyPtr = Inr [ES256, ES384, ES512]
   \<and> AlgorithmsForKey ECDSAPrivateKey = Inr [ES256, ES384, ES512]
   \<and> AlgorithmsForKey ECDSAPrivateKeyPtr = Inr [ES256, ES384, ES512]
   \<and> AlgorithmsForKey Ed25519PublicKey = Inr [EdDSA]
   \<and> AlgorithmsForKey Ed25519PrivateKey = Inr [EdDSA]
   \<and> AlgorithmsForKey X25519PublicKey = Inr [EdDSA]
   \<and> AlgorithmsForKey X25519PrivateKey = Inr [EdDSA]
   \<and> AlgorithmsForKey (JWK jk) =
       (case key_type jk of
          OctetSeq \<Rightarrow> Inr [HS256, HS384, HS512]
        | OKP \<Rightarrow> Inr [EdDSA]
        | RSA \<Rightarrow> Inr [PS256, PS384, PS512, RS256, RS384, RS512]
        | EC \<Rightarrow> Inr [ES256, ES384, ES512]
        | OtherKeyType n \<Rightarrow> Inl UnsupportedKeyType)"
  by (simp add: AlgorithmsForKey_def keyTypeToAlgorithms_def addAlgorithmForKeyType_def
      split: KeyType.splits)

text \<open>
  Against C7 as it is stated: for an RSA key the list does not start with the
  \<open>RS\<close> algorithms.
\<close>

theorem AlgorithmsForKey_RSA_order_counterexample:
  "AlgorithmsForKey RSAPublicKey \<noteq> Inr [RS256, RS384, RS512, PS256, PS384, PS512]"
  by (simp add: AlgorithmsForKey_def keyTypeToAlgorithms_def addAlgorithmForKeyType_def
      RS256_def PS256_def)

subsection \<open>Splitting and periods\<close>

text \<open>
  \<open>Split\<close> and \<open>IndexByte\<close>. The facts \<open>Split_no_sep\<close> and
  \<open>Split_IndexByte\<close> are the loop of Go's \<open>bytes.Split\<close>: without a
  separator the input is the only piece, otherwise the first piece ends at the
  first separator and the rest is split in the same way.
\<close>

lemma Split_not_Nil: "Split s c \<noteq> []"
  by (induction s) (auto split: list.splits)

lemma length_Split: "length (Split s (CHR ''.'')) = Suc (periods s)"
  by (induction s) (auto simp: periods_def Split_not_Nil split: list.splits)

lemma IndexByte_None: "IndexByte s c = None \<longleftrightarrow> c \<notin> set s"
  by (induction s) auto

lemma IndexByte_Some:
  "IndexByte s c = Some i \<Longrightarrow> i < length s \<and> c \<notin> set (take i s) \<and> s = take i s @ c # drop (Suc i) s"
  by (induction s arbitrary: i) (auto split: if_splits)

lemma Split_no_sep: "c \<notin> set s \<Longrightarrow> Split s c = [s]"
  by (induction s) auto

lemma Split_sep: "c \<notin> set a \<Longrightarrow> Split (a @ c # b) c = a # Split b c"
  by (induction a) (auto)

lemma periods_no_sep: "CHR ''.'' \<notin> set s \<Longrightarrow> periods s = 0"
  by (induction s) (auto simp: periods_def)

lemma periods_sep: "CHR ''.'' \<notin> set a \<Longrightarrow> periods (a @ CHR ''.'' # b) = Suc (periods b)"
  by (induction a) (auto simp: periods_def)

lemma Split_IndexByte:
  assumes "IndexByte s c = Some i"
  shows "Split s c = take i s # Split (drop (Suc i) s) c"
proof -
  from IndexByte_Some [OF assms]
  have "c \<notin> set (take i s)" and "s = take i s @ c # drop (Suc i) s" by auto
  then show ?thesis using Split_sep [of c "take i s" "drop (Suc i) s"] by simp
qed

lemma periods_IndexByte:
  assumes "IndexByte s (CHR ''.'') = Some i"
  shows "periods s = Suc (periods (drop (Suc i) s))"
proof -
  from IndexByte_Some [OF assms]
  have "CHR ''.'' \<notin> set (take i s)" and "s = take i s @ CHR ''.'' # drop (Suc i) s" by auto
  then show ?thesis using periods_sep [of "take i s" "drop (Suc i) s"] by simp
qed

text \<open>One round of the inner loop.\<close>

lemma IndexByte_append:
  "IndexByte s c = Some i \<Longrightarrow> IndexByte (s @ z) c = Some i"
  by (induction s arbitrary: i) (auto split: if_splits)

lemma capture_append:
  "i < length (v_sofar st) \<Longrightarrow>
   capture (st\<lparr>v_sofar := v_sofar st @ z, v_periods := n\<rparr>) i =
     (capture (st\<lparr>v_periods := n\<rparr>) i)
       \<lparr>v_sofar := v_sofar (capture (st\<lparr>v_periods := n\<rparr>) i) @ z\<rparr>"
  by (cases st) (simp add: capture_def Let_def)

lemma scan_found:
  "IndexByte (v_sofar st) (CHR ''.'') = Some i \<Longrightarrow>
   scan eof st = scan eof (capture (st\<lparr>v_periods := Suc (v_periods st)\<rparr>) i)"
  by (subst scan.simps) simp

lemma scan_not_found:
  "IndexByte (v_sofar st) (CHR ''.'') = None \<Longrightarrow>
   scan eof st = (if eof then capture st (length (v_sofar st)) else st)"
  by (subst scan.simps) simp

lemma sofar_capture:
  "i < length (v_sofar st) \<Longrightarrow> v_sofar (capture st i) = drop (Suc i) (v_sofar st)"
  by (simp add: capture_def Let_def)

text \<open>
  The chunking does not matter: scanning after a read and again after more
  bytes have arrived leaves what one scan of all the bytes leaves.
\<close>

lemma scan_merge:
  "scan eof ((scan False st)\<lparr>v_sofar := v_sofar (scan False st) @ z\<rparr>) =
   scan eof (st\<lparr>v_sofar := v_sofar st @ z\<rparr>)"
proof (induction "length (v_sofar st)" arbitrary: st rule: less_induct)
  case less
  show ?case
  proof (cases "IndexByte (v_sofar st) (CHR ''.'')")
    case None
    then show ?thesis by (simp add: scan_not_found)
  next
    case (Some i)
    let ?st' = "capture (st\<lparr>v_periods := Suc (v_periods st)\<rparr>) i"
    from IndexByte_Some [OF Some] have i: "i < length (v_sofar st)" by simp
    then have len: "length (v_sofar ?st') < length (v_sofar st)"
      by (simp add: sofar_capture)
    have found: "IndexByte (v_sofar (st\<lparr>v_sofar := v_sofar st @ z\<rparr>)) (CHR ''.'') = Some i"
      using IndexByte_append [OF Some, of z] by simp
    from scan_found [OF found, of eof] capture_append [OF i, where z = z and n = "Suc (v_periods st)"]
    have "scan eof (st\<lparr>v_sofar := v_sofar st @ z\<rparr>) =
          scan eof (?st'\<lparr>v_sofar := v_sofar ?st' @ z\<rparr>)"
      by simp
    also have "\<dots> = scan eof ((scan False ?st')\<lparr>v_sofar := v_sofar (scan False ?st') @ z\<rparr>)"
      using less [OF len] by simp
    also have "scan False ?st' = scan False st"
      using scan_found [OF Some, of False] by simp
    finally show ?thesis by simp
  qed
qed

text \<open>
  So the outer loop is one scan, at the end of the input, of all that the
  reader handed out, unless a read failed.
\<close>

lemma read_loop_scan:
  "read_loop rs st =
     (if fails rs then Inl ReadError
      else Inr (scan True (st\<lparr>v_sofar := v_sofar st @ content rs\<rparr>)))"
proof (induction rs arbitrary: st)
  case Nil
  then show ?case by simp
next
  case (Cons r rs)
  obtain chunk err where r: "r = (chunk, err)" by (cases r)
  show ?case
  proof (cases err)
    case NoErr
    then show ?thesis
      using Cons [of "scan False (st\<lparr>v_sofar := v_sofar st @ chunk\<rparr>)"]
            scan_merge [of True "st\<lparr>v_sofar := v_sofar st @ chunk\<rparr>" "content rs"]
      by (simp add: r Let_def)
  next
    case EOF
    then show ?thesis by (simp add: r)
  next
    case Failed
    then show ?thesis by (simp add: r)
  qed
qed

text \<open>
  What the scan at the end of the input leaves in the variables, starting in
  each of the three states.
\<close>

lemma scan_state2:
  "v_state st = 2 \<Longrightarrow>
   v_periods (scan True st) = v_periods st + periods (v_sofar st)
   \<and> v_protected (scan True st) = v_protected st
   \<and> v_payload (scan True st) = v_payload st
   \<and> v_signature (scan True st) = last (Split (v_sofar st) (CHR ''.''))"
proof (induction "length (v_sofar st)" arbitrary: st rule: less_induct)
  case less
  show ?case
  proof (cases "IndexByte (v_sofar st) (CHR ''.'')")
    case None
    then show ?thesis
      using less.prems
      by (simp add: scan_not_found capture_def Let_def IndexByte_None Split_no_sep periods_no_sep)
  next
    case (Some i)
    let ?st' = "capture (st\<lparr>v_periods := Suc (v_periods st)\<rparr>) i"
    from IndexByte_Some [OF Some] have i: "i < length (v_sofar st)" by simp
    then have len: "length (v_sofar ?st') < length (v_sofar st)"
      by (simp add: sofar_capture)
    have st': "v_state ?st' = 2" "v_periods ?st' = Suc (v_periods st)"
      "v_protected ?st' = v_protected st" "v_payload ?st' = v_payload st"
      "v_sofar ?st' = drop (Suc i) (v_sofar st)"
      using less.prems i by (simp_all add: capture_def Let_def)
    from less.hyps [OF len st'(1)] show ?thesis
      by (simp add: scan_found [OF Some] st' Split_IndexByte [OF Some]
          periods_IndexByte [OF Some] Split_not_Nil)
  qed
qed

lemma scan_state1:
  assumes "v_state st = 1"
  shows "v_periods (scan True st) = v_periods st + periods (v_sofar st)
   \<and> v_protected (scan True st) = v_protected st
   \<and> v_payload (scan True st) = hd (Split (v_sofar st) (CHR ''.''))
   \<and> (0 < periods (v_sofar st) \<longrightarrow>
        v_signature (scan True st) = last (Split (v_sofar st) (CHR ''.'')))"
proof (cases "IndexByte (v_sofar st) (CHR ''.'')")
  case None
  then show ?thesis
    using assms
    by (simp add: scan_not_found capture_def Let_def IndexByte_None Split_no_sep periods_no_sep)
next
  case (Some i)
  let ?st' = "capture (st\<lparr>v_periods := Suc (v_periods st)\<rparr>) i"
  from IndexByte_Some [OF Some] have i: "i < length (v_sofar st)" by simp
  have st': "v_state ?st' = 2" "v_periods ?st' = Suc (v_periods st)"
    "v_protected ?st' = v_protected st" "v_payload ?st' = take i (v_sofar st)"
    "v_sofar ?st' = drop (Suc i) (v_sofar st)"
    using assms i by (simp_all add: capture_def Let_def)
  from scan_state2 [OF st'(1)] show ?thesis
    by (simp add: scan_found [OF Some] st' Split_IndexByte [OF Some]
        periods_IndexByte [OF Some] Split_not_Nil)
qed

lemma scan_state0:
  assumes "v_state st = 0"
  shows "v_periods (scan True st) = v_periods st + periods (v_sofar st)
   \<and> v_protected (scan True st) = hd (Split (v_sofar st) (CHR ''.''))
   \<and> (0 < periods (v_sofar st) \<longrightarrow>
        v_payload (scan True st) = Split (v_sofar st) (CHR ''.'') ! 1)
   \<and> (1 < periods (v_sofar st) \<longrightarrow>
        v_signature (scan True st) = last (Split (v_sofar st) (CHR ''.'')))"
proof (cases "IndexByte (v_sofar st) (CHR ''.'')")
  case None
  then show ?thesis
    using assms
    by (simp add: scan_not_found capture_def Let_def IndexByte_None Split_no_sep periods_no_sep)
next
  case (Some i)
  let ?st' = "capture (st\<lparr>v_periods := Suc (v_periods st)\<rparr>) i"
  from IndexByte_Some [OF Some] have i: "i < length (v_sofar st)" by simp
  have st': "v_state ?st' = 1" "v_periods ?st' = Suc (v_periods st)"
    "v_protected ?st' = take i (v_sofar st)"
    "v_sofar ?st' = drop (Suc i) (v_sofar st)"
    using assms i by (simp_all add: capture_def Let_def)
  from scan_state1 [OF st'(1)] show ?thesis
    by (simp add: scan_found [OF Some] st' Split_IndexByte [OF Some]
        periods_IndexByte [OF Some] Split_not_Nil hd_conv_nth)
qed

text \<open>
  The streaming splitter does what the specification asks of a splitter, for
  every reader that does not fail and however it cuts the input into reads.
\<close>

lemma stream_is_spec:
  "SplitCompactReader (Stream rs) =
     (if fails rs then Inl ReadError else split_compact_spec (content rs))"
proof (cases "fails rs")
  case True
  then show ?thesis by (simp add: SplitCompactReader_def read_loop_scan)
next
  case False
  let ?st = "split_init\<lparr>v_sofar := content rs\<rparr>"
  let ?parts = "Split (content rs) (CHR ''.'')"
  have s0: "v_state ?st = 0" "v_periods ?st = 0" "v_sofar ?st = content rs"
    by (simp_all add: split_init_def)
  note r = scan_state0 [OF s0(1), unfolded s0]
  have rl: "read_loop rs split_init = Inr (scan True ?st)"
    using False by (simp add: read_loop_scan split_init_def)
  show ?thesis
  proof (cases "periods (content rs) = 2")
    case True
    then have len: "length ?parts = 3" by (simp add: length_Split)
    then have "last ?parts = ?parts ! 2" "hd ?parts = ?parts ! 0"
      by (simp_all add: last_conv_nth hd_conv_nth Split_not_Nil)
    with r True len False show ?thesis
      by (simp add: SplitCompactReader_def rl split_compact_spec_def Let_def)
  next
    case ne: False
    then have "length ?parts \<noteq> 3" by (simp add: length_Split)
    with r ne False show ?thesis
      by (simp add: SplitCompactReader_def rl split_compact_spec_def Let_def)
  qed
qed

text \<open>
  The eager splitter fails exactly on the inputs with fewer than two periods,
  and agrees with the specification's splitter, and so with the streaming one,
  exactly on the inputs with at most two periods.
\<close>

lemma SplitCompact_periods:
  "SplitCompact src =
     (if periods src < 2 then Inl MalformedSegments
      else Inr (Split src (CHR ''.'') ! 0, Split src (CHR ''.'') ! 1, Split src (CHR ''.'') ! 2))"
  by (auto simp: SplitCompact_def Let_def length_Split)

lemma SplitCompact_eq_spec: "(SplitCompact src = split_compact_spec src) = (periods src \<le> 2)"
  by (auto simp: SplitCompact_def split_compact_spec_def Let_def length_Split)

lemma content_chunked: "0 < c \<Longrightarrow> content (chunked c buf) = buf"
proof (induction c buf rule: chunked.induct)
  case (1 c buf)
  then show ?case by (subst chunked.simps) auto
qed

lemma fails_chunked: "\<not> fails (chunked c buf)"
proof (induction c buf rule: chunked.induct)
  case (1 c buf)
  then show ?case by (subst chunked.simps) auto
qed

lemma chunked_stream_is_spec:
  "0 < c \<Longrightarrow> SplitCompactReader (Stream (chunked c buf)) = split_compact_spec buf"
  by (simp add: stream_is_spec fails_chunked content_chunked)

lemma chunked_stream_eq_eager:
  "0 < c \<Longrightarrow>
   (SplitCompactReader (Stream (chunked c buf)) = SplitCompact buf) = (periods buf \<le> 2)"
  using SplitCompact_eq_spec [of buf] by (auto simp: chunked_stream_is_spec)

text \<open>
  C6: the claim is that \<open>SplitCompact\<close> fails with \<open>MalformedSegments\<close> on
  every input that has not exactly two periods, so also on one with segments
  after the third. The code, for \<open>a.b.c.d\<close>: the first three segments are
  returned. (By \<open>SplitCompact_periods\<close> it fails exactly on the inputs with
  fewer than two periods.)
\<close>

theorem SplitCompact_accepts_extra_segments:
  "SplitCompact ''a.b.c.d'' = Inr (''a'', ''b'', ''c'')"
  by code_simp

text \<open>
  C5: the claim is that the streaming splitter, for every buffer and every
  chunking of it, gives what \<open>SplitCompact\<close> gives for the buffer. The code,
  for \<open>a.b.c.d\<close>: read in chunks of one byte or in one chunk, the stream is
  refused with \<open>MalformedSegments\<close>, while \<open>SplitCompact\<close>, and with it the
  splitter on a \<open>*bytes.Reader\<close>, returns three segments. (By
  \<open>chunked_stream_eq_eager\<close> the two agree exactly on the buffers with at
  most two periods.)
\<close>

theorem stream_differs_from_eager:
  "SplitCompactReader (Stream (chunked 1 ''a.b.c.d'')) = Inl MalformedSegments
   \<and> SplitCompactReader (Stream (chunked 4096 ''a.b.c.d'')) = Inl MalformedSegments
   \<and> SplitCompact ''a.b.c.d'' = Inr (''a'', ''b'', ''c'')
   \<and> SplitCompactReader (BytesReader ''a.b.c.d'') = Inr (''a'', ''b'', ''c'')"
  by code_simp

end
